theory Spec2Isabelle
  imports Main "HOL-Library.AList"
begin

section \<open>Python values\<close>

text \<open>
  A Python \<open>str\<close> is a sequence of Unicode code points and \<open>len\<close> counts code points,
  so a string is modelled as the list of its code points. \<open>U\<close> turns an ASCII literal
  into such a list.
\<close>

type_synonym ustring = "nat list"

definition U :: "string \<Rightarrow> ustring" where
  "U s = map of_char s"

text \<open>\<open>str.isspace\<close> on one character: the code points Python treats as whitespace.\<close>

definition py_isspace :: "nat \<Rightarrow> bool" where
  "py_isspace c \<longleftrightarrow> c \<in> set [9, 10, 11, 12, 13, 28, 29, 30, 31, 32, 133, 160, 5760,
     8192, 8193, 8194, 8195, 8196, 8197, 8198, 8199, 8200, 8201, 8202,
     8232, 8233, 8239, 8287, 12288]"

text \<open>\<open>str.strip()\<close>: leading and trailing whitespace removed.\<close>

definition py_strip :: "ustring \<Rightarrow> ustring" where
  "py_strip s = rev (dropWhile py_isspace (rev (dropWhile py_isspace s)))"

text \<open>
  \<open>str(i)\<close> of a non-negative integer, as the f-string \<open>{i}\<close> renders the loop index:
  its decimal digits, most significant first.
\<close>

function decimal :: "nat \<Rightarrow> ustring" where
  "decimal n = (if n < 10 then [48 + n] else decimal (n div 10) @ [48 + n mod 10])"
  by pat_completeness auto
termination
  by (relation "measure id") auto

declare decimal.simps [simp del]

definition py_str_int :: "int \<Rightarrow> ustring" where
  "py_str_int i = (if i < 0 then 45 # decimal (nat (- i)) else decimal (nat i))"

text \<open>
  The values stored in the metadata dictionaries (\<open>Dict[str, Any]\<close>) are strings and
  integers. \<open>py_format\<close> is what an f-string placeholder prints for such a value.
\<close>

datatype pyval = PStr ustring | PInt int

fun py_format :: "pyval \<Rightarrow> ustring" where
  "py_format (PStr s) = s"
| "py_format (PInt i) = py_str_int i"

text \<open>
  A \<open>dict\<close> keeps insertion order and an assignment to an existing key keeps its place:
  an association list with \<open>AList.update\<close> for \<open>d[k] = v\<close> and \<open>map_of\<close> for lookup.
\<close>

type_synonym pydict = "(ustring \<times> pyval) list"

text \<open>A raised exception is represented by its message, the \<open>str(e)\<close> the handlers report.\<close>

type_synonym exn = ustring

section \<open>Collaborators outside the repository\<close>

text \<open>
  The splitter object \<open>RecursiveCharacterTextSplitter(chunk_size, chunk_overlap,
  length_function=len, separators)\<close>: the configuration it was built with.
\<close>

record splitter =
  sp_chunk_size :: int
  sp_chunk_overlap :: int
  sp_separators :: "ustring list option"

record page_meta =
  pm_title :: ustring
  pm_description :: ustring
  pm_keywords :: ustring
  pm_author :: ustring
  pm_language :: ustring

text \<open>
  Everything the repository calls but does not define is a parameter of the model:
  \<^item> \<open>splitter_init_error\<close>: the validation inside the splitter's constructor
    (\<open>Some e\<close> when it raises);
  \<^item> \<open>split_text\<close>: the splitter's \<open>split_text\<close>;
  \<^item> \<open>sha256_hexdigest\<close>: \<open>hashlib.sha256(s.encode('utf-8')).hexdigest()\<close>;
  \<^item> \<open>fetch_content\<close>: URL validation and the HTTP request of
    \<open>WebContentExtractor.fetch_content\<close>, which re-raises every error it logs;
  \<^item> \<open>soup_metadata\<close>: the tag lookups of \<open>extract_metadata\<close>;
  \<^item> \<open>extract_text\<close>: \<open>WebContentExtractor.extract_text\<close> (HTML parsing and cleaning);
  \<^item> \<open>now_isoformat\<close>: \<open>datetime.now().isoformat()\<close>;
  \<^item> \<open>elapsed\<close>: the measured processing time, rounded to hundredths of a second;
  \<^item> \<open>get_or_create_fault\<close>, \<open>upsert_fault\<close>: failures of the store. A failing upsert
    reports how many leading records it wrote before it raised.
\<close>

record env =
  splitter_init_error :: "int \<Rightarrow> int \<Rightarrow> exn option"
  split_text :: "splitter \<Rightarrow> ustring \<Rightarrow> exn + ustring list"
  sha256_hexdigest :: "ustring \<Rightarrow> ustring"
  fetch_content :: "ustring \<Rightarrow> exn + (ustring \<times> int)"
  soup_metadata :: "ustring \<Rightarrow> exn + page_meta"
  extract_text :: "ustring \<Rightarrow> exn + ustring"
  now_isoformat :: ustring
  elapsed :: nat
  get_or_create_fault :: "ustring \<Rightarrow> exn option"
  upsert_fault :: "ustring \<Rightarrow> ustring list \<Rightarrow> (exn \<times> nat) option"

subsection \<open>The vector store\<close>

text \<open>
  Modelled from the spec: the vector store (the ChromaDB client and its collections),
  which the repository only calls. Section 6 of the specification: a named collection
  is obtained or created by \<open>getOrCreateCollection(name)\<close>; \<open>upsert\<close> is keyed by id and
  re-upserting an id replaces its document and metadata; \<open>count\<close> is the number of
  records of a collection. A store that refuses a batch raises through \<open>upsert_fault\<close>.
\<close>

type_synonym collection = "(ustring \<times> (ustring \<times> pydict)) list"

type_synonym chroma = "(ustring \<times> collection) list"

definition client_get_or_create_collection :: "ustring \<Rightarrow> chroma \<Rightarrow> chroma" where
  "client_get_or_create_collection name db =
     (case map_of db name of Some c \<Rightarrow> db | None \<Rightarrow> db @ [(name, [])])"

fun upsert_records :: "(ustring \<times> (ustring \<times> pydict)) list \<Rightarrow> collection \<Rightarrow> collection" where
  "upsert_records [] c = c"
| "upsert_records ((i, r) # rs) c = upsert_records rs (AList.update i r c)"

definition store_upsert ::
  "ustring \<Rightarrow> ustring list \<Rightarrow> ustring list \<Rightarrow> pydict list \<Rightarrow> chroma \<Rightarrow> chroma" where
  "store_upsert name ids documents metadatas db =
     AList.map_entry name (upsert_records (zip ids (zip documents metadatas))) db"

definition collection_count :: "ustring \<Rightarrow> chroma \<Rightarrow> exn + nat" where
  "collection_count name db =
     (case map_of db name of
        None \<Rightarrow> Inl (U ''Collection does not exist'')
      | Some c \<Rightarrow> Inr (length c))"

section \<open>chroma\_manager.py\<close>

text \<open>The three lists \<open>chunks\<close>, \<open>ids\<close> and \<open>metadatas\<close> that both modules build.\<close>

record chunks_data =
  cd_chunks :: "ustring list"
  cd_ids :: "ustring list"
  cd_metadatas :: "pydict list"

definition no_chunks :: chunks_data where
  "no_chunks = \<lparr>cd_chunks = [], cd_ids = [], cd_metadatas = []\<rparr>"

text \<open>\<open>ChromaDBManager.get_or_create_collection\<close>: logs and re-raises a failure of the client.\<close>

definition get_or_create_collection :: "env \<Rightarrow> ustring \<Rightarrow> chroma \<Rightarrow> exn + chroma" where
  "get_or_create_collection e name db =
     (case get_or_create_fault e name of
        Some err \<Rightarrow> Inl err
      | None \<Rightarrow> Inr (client_get_or_create_collection name db))"

text \<open>\<open>ChromaDBManager.count_items\<close>.\<close>

definition count_items :: "ustring \<Rightarrow> chroma \<Rightarrow> exn + nat" where
  "count_items collection_name db = collection_count collection_name db"

text \<open>
  The call \<open>collection.upsert(documents=..., ids=..., metadatas=...)\<close> on the collection
  named \<open>name\<close>, returning the raised error, if any, and the store afterwards.
\<close>

definition collection_upsert :: "env \<Rightarrow> ustring \<Rightarrow> chunks_data \<Rightarrow> chroma \<Rightarrow> exn option \<times> chroma" where
  "collection_upsert e name cd db =
     (case upsert_fault e name (cd_ids cd) of
        Some (err, k) \<Rightarrow>
          (Some err, store_upsert name (take k (cd_ids cd)) (take k (cd_chunks cd))
                       (take k (cd_metadatas cd)) db)
      | None \<Rightarrow>
          (None, store_upsert name (cd_ids cd) (cd_chunks cd) (cd_metadatas cd) db))"

text \<open>
  \<open>metadatas[i].copy() if metadatas and i < len(metadatas) else {}\<close>
\<close>

definition metadata_for :: "pydict list option \<Rightarrow> nat \<Rightarrow> pydict" where
  "metadata_for metadatas i =
     (case metadatas of
        None \<Rightarrow> []
      | Some ms \<Rightarrow> if ms \<noteq> [] \<and> i < length ms then ms ! i else [])"

text \<open>The metadata \<open>add_texts\<close> attaches to every chunk of the \<open>i\<close>-th text.\<close>

definition current_metadata :: "pydict list option \<Rightarrow> ustring option \<Rightarrow> nat \<Rightarrow> pydict" where
  "current_metadata metadatas source_name i =
     (case source_name of
        Some s \<Rightarrow> if s \<noteq> [] then AList.update (U ''source'') (PStr s) (metadata_for metadatas i)
                  else metadata_for metadatas i
      | None \<Rightarrow> metadata_for metadatas i)"

text \<open>The inner loop of \<open>add_texts\<close>, over the chunks of the \<open>i\<close>-th text.\<close>

fun add_texts_chunks ::
  "env \<Rightarrow> pydict list option \<Rightarrow> ustring option \<Rightarrow> nat \<Rightarrow> ustring list \<Rightarrow> chunks_data \<Rightarrow> chunks_data" where
  "add_texts_chunks e metadatas source_name i [] acc = acc"
| "add_texts_chunks e metadatas source_name i (chunk # rest) acc =
     add_texts_chunks e metadatas source_name i rest
       \<lparr>cd_chunks = cd_chunks acc @ [chunk],
        cd_ids = cd_ids acc @ [sha256_hexdigest e chunk],
        cd_metadatas = cd_metadatas acc @ [current_metadata metadatas source_name i]\<rparr>"

text \<open>The outer loop of \<open>add_texts\<close>, over \<open>enumerate(texts)\<close>.\<close>

fun add_texts_loop ::
  "env \<Rightarrow> splitter \<Rightarrow> pydict list option \<Rightarrow> ustring option \<Rightarrow> (nat \<times> ustring) list \<Rightarrow>
   chunks_data \<Rightarrow> exn + chunks_data" where
  "add_texts_loop e sp metadatas source_name [] acc = Inr acc"
| "add_texts_loop e sp metadatas source_name ((i, text) # rest) acc =
     (case split_text e sp text of
        Inl err \<Rightarrow> Inl err
      | Inr split_chunks \<Rightarrow>
          add_texts_loop e sp metadatas source_name rest
            (add_texts_chunks e metadatas source_name i split_chunks acc))"

text \<open>
  \<open>ChromaDBManager.add_texts\<close>. Every exception is logged and re-raised, so the model
  returns the error, if any, with the store as the call left it.
\<close>

definition add_texts ::
  "env \<Rightarrow> ustring \<Rightarrow> ustring list \<Rightarrow> pydict list option \<Rightarrow> ustring option \<Rightarrow> int \<Rightarrow> int \<Rightarrow>
   chroma \<Rightarrow> exn option \<times> chroma" where
  "add_texts e collection_name texts metadatas source_name chunk_size chunk_overlap db =
     (case get_or_create_collection e collection_name db of
        Inl err \<Rightarrow> (Some err, db)
      | Inr db1 \<Rightarrow>
          (case splitter_init_error e chunk_size chunk_overlap of
             Some err \<Rightarrow> (Some err, db1)
           | None \<Rightarrow>
               (case add_texts_loop e
                       \<lparr>sp_chunk_size = chunk_size, sp_chunk_overlap = chunk_overlap,
                        sp_separators = None\<rparr>
                       metadatas source_name (List.enumerate 0 texts) no_chunks of
                  Inl err \<Rightarrow> (Some err, db1)
                | Inr cd \<Rightarrow>
                    if cd_chunks cd = [] then (None, db1)
                    else collection_upsert e collection_name cd db1)))"

section \<open>url\_processor.py\<close>

subsection \<open>WebContentExtractor\<close>

text \<open>
  \<open>extract_metadata\<close>: the dictionary always carries \<open>url\<close> and \<open>processed_date\<close>; when
  the parsing raises, the handler returns the same keys with empty strings.
\<close>

definition extract_metadata :: "env \<Rightarrow> ustring \<Rightarrow> ustring \<Rightarrow> pydict" where
  "extract_metadata e html url =
     (case soup_metadata e html of
        Inr pm \<Rightarrow>
          [(U ''url'', PStr url),
           (U ''processed_date'', PStr (now_isoformat e)),
           (U ''title'', PStr (pm_title pm)),
           (U ''description'', PStr (pm_description pm)),
           (U ''keywords'', PStr (pm_keywords pm)),
           (U ''author'', PStr (pm_author pm)),
           (U ''language'', PStr (pm_language pm))]
      | Inl err \<Rightarrow>
          [(U ''url'', PStr url),
           (U ''processed_date'', PStr (now_isoformat e)),
           (U ''title'', PStr []),
           (U ''description'', PStr []),
           (U ''keywords'', PStr []),
           (U ''author'', PStr []),
           (U ''language'', PStr [])])"

subsection \<open>URLChunker\<close>

text \<open>
  The mutable part of a \<open>URLChunker\<close> object: its current splitter and the database
  behind its \<open>chroma_manager\<close>.
\<close>

record chunker =
  text_splitter :: splitter
  chroma_manager :: chroma

definition url_separators :: "ustring list" where
  "url_separators = [[10, 10], [10], U ''. '', U ''! '', U ''? '', U ''; '', U '', '', U '' '', []]"

definition new_splitter :: "env \<Rightarrow> int \<Rightarrow> int \<Rightarrow> exn + splitter" where
  "new_splitter e chunk_size chunk_overlap =
     (case splitter_init_error e chunk_size chunk_overlap of
        Some err \<Rightarrow> Inl err
      | None \<Rightarrow> Inr \<lparr>sp_chunk_size = chunk_size, sp_chunk_overlap = chunk_overlap,
                     sp_separators = Some url_separators\<rparr>)"

text \<open>\<open>URLChunker.__init__\<close>\<close>

definition URLChunker_init :: "env \<Rightarrow> chroma \<Rightarrow> exn + chunker" where
  "URLChunker_init e db =
     (case new_splitter e 1000 200 of
        Inl err \<Rightarrow> Inl err
      | Inr sp \<Rightarrow> Inr \<lparr>text_splitter = sp, chroma_manager = db\<rparr>)"

text \<open>
  The string that \<open>create_chunks\<close> hashes: the f-string
  \<open>{metadata['url']}_{i}_{chunk}\<close>, with the url already formatted.
\<close>

definition chunk_key :: "ustring \<Rightarrow> nat \<Rightarrow> ustring \<Rightarrow> ustring" where
  "chunk_key url i chunk = url @ U ''_'' @ decimal i @ U ''_'' @ chunk"

text \<open>
  The metadata of one chunk: a copy of the document's metadata with \<open>chunk_index\<close> and
  \<open>chunk_size\<close> set, and \<open>source\<close> set when a source name is given.
\<close>

definition chunk_metadata :: "pydict \<Rightarrow> ustring option \<Rightarrow> nat \<Rightarrow> ustring \<Rightarrow> pydict" where
  "chunk_metadata metadata source_name i chunk =
     (let m = AList.update (U ''chunk_index'') (PInt (int i)) metadata;
          m = AList.update (U ''chunk_size'') (PInt (int (length chunk))) m
      in case source_name of
           Some s \<Rightarrow> if s \<noteq> [] then AList.update (U ''source'') (PStr s) m else m
         | None \<Rightarrow> m)"

text \<open>
  The loop of \<open>create_chunks\<close> over \<open>enumerate(text_chunks)\<close>. A metadata dictionary
  without the key \<open>url\<close> raises \<open>KeyError\<close> at the first chunk.
\<close>

fun create_chunks_loop ::
  "env \<Rightarrow> pydict \<Rightarrow> ustring option \<Rightarrow> (nat \<times> ustring) list \<Rightarrow> chunks_data \<Rightarrow> exn + chunks_data" where
  "create_chunks_loop e metadata source_name [] acc = Inr acc"
| "create_chunks_loop e metadata source_name ((i, chunk) # rest) acc =
     (case map_of metadata (U ''url'') of
        None \<Rightarrow> Inl ([39] @ U ''url'' @ [39])
      | Some u \<Rightarrow>
          create_chunks_loop e metadata source_name rest
            \<lparr>cd_chunks = cd_chunks acc @ [chunk],
             cd_ids = cd_ids acc @ [sha256_hexdigest e (chunk_key (py_format u) i chunk)],
             cd_metadatas = cd_metadatas acc @ [chunk_metadata metadata source_name i chunk]\<rparr>)"

text \<open>\<open>URLChunker.create_chunks\<close>: reads the object's current splitter.\<close>

definition create_chunks ::
  "env \<Rightarrow> chunker \<Rightarrow> ustring \<Rightarrow> pydict \<Rightarrow> ustring option \<Rightarrow> exn + chunks_data" where
  "create_chunks e self text metadata source_name =
     (case split_text e (text_splitter self) text of
        Inl err \<Rightarrow> Inl err
      | Inr text_chunks \<Rightarrow>
          create_chunks_loop e metadata source_name (List.enumerate 0 text_chunks) no_chunks)"

text \<open>\<open>URLChunker.save_to_chroma\<close>\<close>

definition save_to_chroma ::
  "env \<Rightarrow> chunker \<Rightarrow> chunks_data \<Rightarrow> ustring \<Rightarrow> exn option \<times> chunker" where
  "save_to_chroma e self chunks_data collection_name =
     (case get_or_create_collection e collection_name (chroma_manager self) of
        Inl err \<Rightarrow> (Some err, self)
      | Inr db1 \<Rightarrow>
          (case collection_upsert e collection_name chunks_data db1 of
             (r, db2) \<Rightarrow> (r, self\<lparr>chroma_manager := db2\<rparr>)))"

text \<open>The dictionaries \<open>process_url\<close> returns; a key that is absent is \<open>None\<close>.\<close>

record result =
  r_success :: bool
  r_error :: "ustring option"
  r_url :: ustring
  r_chunks_created :: nat
  r_total_characters :: "nat option"
  r_processing_time :: "nat option"
  r_metadata :: "pydict option"

definition failure_result :: "ustring \<Rightarrow> ustring \<Rightarrow> result" where
  "failure_result err url =
     \<lparr>r_success = False, r_error = Some err, r_url = url, r_chunks_created = 0,
      r_total_characters = None, r_processing_time = None, r_metadata = None\<rparr>"

text \<open>The literal of the empty-content branch (Russian for "empty text content").\<close>

definition empty_content_message :: ustring where
  "empty_content_message =
     [1055, 1091, 1089, 1090, 1086, 1081, 32, 1090, 1077, 1082, 1089, 1090, 1086, 1074,
      1099, 1081, 32, 1082, 1086, 1085, 1090, 1077, 1085, 1090]"

text \<open>
  The first statement of \<open>process_url\<close>: a new splitter replaces the object's splitter
  only when the arguments differ from 1000 and 200.
\<close>

definition configure_splitter :: "env \<Rightarrow> int \<Rightarrow> int \<Rightarrow> chunker \<Rightarrow> exn + chunker" where
  "configure_splitter e chunk_size chunk_overlap self =
     (if chunk_size \<noteq> 1000 \<or> chunk_overlap \<noteq> 200 then
        (case new_splitter e chunk_size chunk_overlap of
           Inl err \<Rightarrow> Inl err
         | Inr sp \<Rightarrow> Inr (self\<lparr>text_splitter := sp\<rparr>))
      else Inr self)"

text \<open>Steps 1 to 5 of \<open>process_url\<close>, after the splitter is configured.\<close>

definition process_url_steps ::
  "env \<Rightarrow> ustring \<Rightarrow> ustring \<Rightarrow> ustring option \<Rightarrow> chunker \<Rightarrow> (exn + result) \<times> chunker" where
  "process_url_steps e url collection_name source_name self =
     (case fetch_content e url of
        Inl err \<Rightarrow> (Inl err, self)
      | Inr (html_content, status_code) \<Rightarrow>
          (let metadata = extract_metadata e html_content url in
           case extract_text e html_content of
             Inl err \<Rightarrow> (Inl err, self)
           | Inr text_content \<Rightarrow>
               if py_strip text_content = [] then
                 (Inr (failure_result empty_content_message url), self)
               else
                 (case create_chunks e self text_content metadata source_name of
                    Inl err \<Rightarrow> (Inl err, self)
                  | Inr cd \<Rightarrow>
                      (case save_to_chroma e self cd collection_name of
                         (Some err, self') \<Rightarrow> (Inl err, self')
                       | (None, self') \<Rightarrow>
                           (Inr \<lparr>r_success = True, r_error = None, r_url = url,
                                 r_chunks_created = length (cd_chunks cd),
                                 r_total_characters = Some (length text_content),
                                 r_processing_time = Some (elapsed e),
                                 r_metadata = Some metadata\<rparr>, self')))))"

text \<open>The \<open>try\<close> block of \<open>process_url\<close>: what it returns or raises, and the object afterwards.\<close>

definition process_url_try ::
  "env \<Rightarrow> ustring \<Rightarrow> ustring \<Rightarrow> int \<Rightarrow> int \<Rightarrow> ustring option \<Rightarrow> chunker \<Rightarrow> (exn + result) \<times> chunker" where
  "process_url_try e url collection_name chunk_size chunk_overlap source_name self =
     (case configure_splitter e chunk_size chunk_overlap self of
        Inl err \<Rightarrow> (Inl err, self)
      | Inr self1 \<Rightarrow> process_url_steps e url collection_name source_name self1)"

text \<open>\<open>URLChunker.process_url\<close>: \<open>except Exception\<close> turns every raised error into a result.\<close>

definition process_url ::
  "env \<Rightarrow> ustring \<Rightarrow> ustring \<Rightarrow> int \<Rightarrow> int \<Rightarrow> ustring option \<Rightarrow> chunker \<Rightarrow> result \<times> chunker" where
  "process_url e url collection_name chunk_size chunk_overlap source_name self =
     (case process_url_try e url collection_name chunk_size chunk_overlap source_name self of
        (Inr r, self') \<Rightarrow> (r, self')
      | (Inl err, self') \<Rightarrow> (failure_result err url, self'))"

text \<open>
  \<open>URLChunker.process_multiple_urls\<close>. The network, the clock and the store's faults
  may differ from one document to the next: \<open>world k\<close> is the environment in which the
  document at position \<open>k\<close> is processed. \<open>process_url\<close> has no path that raises, so the
  handler around the call is never entered and each pass appends exactly the returned
  result.
\<close>

fun process_multiple_urls_loop ::
  "(nat \<Rightarrow> env) \<Rightarrow> nat \<Rightarrow> ustring list \<Rightarrow> ustring \<Rightarrow> int \<Rightarrow> int \<Rightarrow> ustring option \<Rightarrow>
   chunker \<Rightarrow> result list \<Rightarrow> result list \<times> chunker" where
  "process_multiple_urls_loop world k [] collection_name chunk_size chunk_overlap source_name
     self results = (results, self)"
| "process_multiple_urls_loop world k (url # urls) collection_name chunk_size chunk_overlap
     source_name self results =
     (case process_url (world k) url collection_name chunk_size chunk_overlap source_name self of
        (r, self') \<Rightarrow>
          process_multiple_urls_loop world (Suc k) urls collection_name chunk_size chunk_overlap
            source_name self' (results @ [r]))"

definition process_multiple_urls ::
  "(nat \<Rightarrow> env) \<Rightarrow> ustring list \<Rightarrow> ustring \<Rightarrow> int \<Rightarrow> int \<Rightarrow> ustring option \<Rightarrow> chunker \<Rightarrow>
   result list \<times> chunker" where
  "process_multiple_urls world urls collection_name chunk_size chunk_overlap source_name self =
     process_multiple_urls_loop world 0 urls collection_name chunk_size chunk_overlap
       source_name self []"

section \<open>A sample environment\<close>

text \<open>
  Concrete collaborators on which the model can be run. The sample splitter cuts a text
  into consecutive blocks of \<open>chunk_size\<close> characters; its constructor refuses an
  overlap larger than the chunk size. The sample digest is the identity. Two pages are
  served, one address is unreachable and one page is blank.
\<close>

fun demo_blocks :: "nat \<Rightarrow> ustring \<Rightarrow> ustring \<Rightarrow> ustring list" where
  "demo_blocks n buf [] = (if buf = [] then [] else [buf])"
| "demo_blocks n buf (c # cs) =
     (if n < length buf + 1 \<and> buf \<noteq> [] then buf # demo_blocks n [c] cs
      else demo_blocks n (buf @ [c]) cs)"

definition demo_split :: "splitter \<Rightarrow> ustring \<Rightarrow> exn + ustring list" where
  "demo_split sp text = Inr (demo_blocks (nat (sp_chunk_size sp)) [] text)"

definition demo_fetch :: "ustring \<Rightarrow> exn + (ustring \<times> int)" where
  "demo_fetch url =
     (if url = U ''http://down'' then Inl (U ''connection refused'')
      else if url = U ''http://blank'' then Inr (U ''   '', 200)
      else if url = U ''http://h/b'' then Inr (U ''hello'', 200)
      else Inr (U ''abcdefgh'', 200))"

definition demo_env :: env where
  "demo_env =
     \<lparr>splitter_init_error =
        (\<lambda>chunk_size chunk_overlap.
           if chunk_size < chunk_overlap then Some (U ''overlap larger than chunk size'') else None),
      split_text = demo_split,
      sha256_hexdigest = (\<lambda>s. s),
      fetch_content = demo_fetch,
      soup_metadata = (\<lambda>html. Inr \<lparr>pm_title = U ''t'', pm_description = [], pm_keywords = [],
                                    pm_author = [], pm_language = U ''ru''\<rparr>),
      extract_text = (\<lambda>html. Inr html),
      now_isoformat = U ''2024-01-01T00:00:00'',
      elapsed = 0,
      get_or_create_fault = (\<lambda>name. None),
      upsert_fault = (\<lambda>name ids. None)\<rparr>"

definition demo_env_store_down :: env where
  "demo_env_store_down = demo_env\<lparr>upsert_fault := (\<lambda>name ids. Some (U ''store unavailable'', 0))\<rparr>"

definition demo_self :: chunker where
  "demo_self =
     \<lparr>text_splitter = \<lparr>sp_chunk_size = 1000, sp_chunk_overlap = 200,
                        sp_separators = Some url_separators\<rparr>,
      chroma_manager = []\<rparr>"

definition demo_world :: "nat \<Rightarrow> env" where
  "demo_world k = demo_env"

text \<open>
  A document's metadata at two different times, an object whose splitter cuts blocks of
  four characters, and the chunk lists the sample environment produces from them.
\<close>

definition demo_metadata :: pydict where
  "demo_metadata = [(U ''url'', PStr (U ''http://h/a'')), (U ''processed_date'', PStr (U ''2024-01-01''))]"

definition demo_metadata_later :: pydict where
  "demo_metadata_later = [(U ''url'', PStr (U ''http://h/a'')), (U ''processed_date'', PStr (U ''2024-02-02''))]"

definition demo_self4 :: chunker where
  "demo_self4 = demo_self\<lparr>text_splitter := \<lparr>sp_chunk_size = 4, sp_chunk_overlap = 0,
                                             sp_separators = Some url_separators\<rparr>\<rparr>"

definition demo_cd :: chunks_data where
  "demo_cd = (case create_chunks demo_env demo_self4 (U ''abcdefgh'') demo_metadata None of
                Inr cd \<Rightarrow> cd | Inl err \<Rightarrow> no_chunks)"

definition demo_self1 :: chunker where
  "demo_self1 = snd (save_to_chroma demo_env demo_self4 demo_cd (U ''docs''))"

definition demo_cd_short :: chunks_data where
  "demo_cd_short = (case create_chunks demo_env demo_self (U ''abcd'') demo_metadata_later (Some (U ''wiki'')) of
                Inr cd \<Rightarrow> cd | Inl err \<Rightarrow> no_chunks)"

text \<open>The sample environment with a store that refuses a batch in which an id occurs twice.\<close>

definition demo_env_unique_ids :: env where
  "demo_env_unique_ids =
     demo_env\<lparr>upsert_fault :=
       (\<lambda>name ids. if distinct ids then None else Some (U ''ids are not unique'', 0))\<rparr>"

section \<open>The content address\<close>

lemma U_underscore: "U ''_'' = [95]" by (simp add: U_def)

lemma decimal_nonempty: "decimal n \<noteq> []"
  by (subst decimal.simps) simp

lemma decimal_digits: "c \<in> set (decimal n) \<Longrightarrow> 48 \<le> c \<and> c \<le> 57"
proof (induction n rule: decimal.induct)
  case (1 n)
  show ?case
  proof (cases "n < 10")
    case True
    with "1.prems" show ?thesis by (subst (asm) decimal.simps) simp
  next
    case False
    from "1.prems" have "c \<in> set (decimal (n div 10)) \<or> c = 48 + n mod 10"
      using False by (subst (asm) decimal.simps) auto
    then show ?thesis
    proof
      assume "c \<in> set (decimal (n div 10))"
      with False "1.IH" show ?thesis by blast
    next
      assume c: "c = 48 + n mod 10"
      have "n mod 10 < 10" by simp
      with c show ?thesis by linarith
    qed
  qed
qed

lemma decimal_no_underscore: "95 \<notin> set (decimal n)"
  using decimal_digits [of 95 n] by auto

lemma decimal_inj: "decimal m = decimal n \<Longrightarrow> m = n"
proof (induction m arbitrary: n rule: decimal.induct)
  case (1 m)
  show ?case
  proof (cases "m < 10")
    case m: True
    show ?thesis
    proof (cases "n < 10")
      case True
      with m "1.prems" show ?thesis by (simp add: decimal.simps [of m] decimal.simps [of n])
    next
      case False
      with m "1.prems" have "[48 + m] = decimal (n div 10) @ [48 + n mod 10]"
        by (simp add: decimal.simps [of m] decimal.simps [of n])
      then have "decimal (n div 10) = []" by simp
      then show ?thesis using decimal_nonempty by blast
    qed
  next
    case m: False
    show ?thesis
    proof (cases "n < 10")
      case True
      with m "1.prems" have "decimal (m div 10) @ [48 + m mod 10] = [48 + n]"
        by (simp add: decimal.simps [of m] decimal.simps [of n])
      then have "decimal (m div 10) = []" by simp
      then show ?thesis using decimal_nonempty by blast
    next
      case False
      with m "1.prems" have "decimal (m div 10) @ [48 + m mod 10] = decimal (n div 10) @ [48 + n mod 10]"
        by (simp add: decimal.simps [of m] decimal.simps [of n])
      then have a: "decimal (m div 10) = decimal (n div 10)" and b: "m mod 10 = n mod 10" by simp_all
      from a m "1.IH" have "m div 10 = n div 10" by blast
      with b show ?thesis by (metis div_mult_mod_eq)
    qed
  qed
qed

lemma split_at_first:
  assumes "x \<notin> set a" "x \<notin> set b" "a @ x # r = b @ x # s"
  shows "a = b \<and> r = s"
  using assms
proof (induction a arbitrary: b)
  case Nil
  then show ?case by (cases b) auto
next
  case (Cons y a)
  then show ?case by (cases b) auto
qed

lemma chunk_key_same_url:
  assumes "chunk_key u i1 c1 = chunk_key u i2 c2"
  shows "i1 = i2 \<and> c1 = c2"
proof -
  from assms have "decimal i1 @ 95 # c1 = decimal i2 @ 95 # c2"
    by (simp add: chunk_key_def U_underscore)
  then have "decimal i1 = decimal i2 \<and> c1 = c2"
    by (rule split_at_first [OF decimal_no_underscore decimal_no_underscore])
  then show ?thesis using decimal_inj by blast
qed

text \<open>
  The delimiter is the underscore (code point 95), which a url and a chunk may contain.
  Two triples are hashed from the same string only if they are equal or one url is the
  other followed by an underscore and further characters.
\<close>

lemma chunk_key_injective_unless_suffix:
  assumes "\<not> (\<exists>r. u1 = u2 @ 95 # r)" and "\<not> (\<exists>r. u2 = u1 @ 95 # r)"
      and "chunk_key u1 i1 c1 = chunk_key u2 i2 c2"
  shows "u1 = u2 \<and> i1 = i2 \<and> c1 = c2"
proof -
  from assms(3) have eq: "u1 @ 95 # (decimal i1 @ 95 # c1) = u2 @ 95 # (decimal i2 @ 95 # c2)"
    by (simp add: chunk_key_def U_underscore)
  then obtain z where "u1 = u2 @ z \<and> z @ 95 # (decimal i1 @ 95 # c1) = 95 # (decimal i2 @ 95 # c2) \<or>
      u1 @ z = u2 \<and> 95 # (decimal i1 @ 95 # c1) = z @ 95 # (decimal i2 @ 95 # c2)"
    by (auto simp: append_eq_append_conv2)
  then have "u1 = u2"
  proof
    assume a: "u1 = u2 @ z \<and> z @ 95 # (decimal i1 @ 95 # c1) = 95 # (decimal i2 @ 95 # c2)"
    show ?thesis
    proof (cases z)
      case Nil
      with a show ?thesis by simp
    next
      case (Cons y ys)
      with a have "u1 = u2 @ 95 # ys" by simp
      with assms(1) show ?thesis by blast
    qed
  next
    assume a: "u1 @ z = u2 \<and> 95 # (decimal i1 @ 95 # c1) = z @ 95 # (decimal i2 @ 95 # c2)"
    show ?thesis
    proof (cases z)
      case Nil
      with a show ?thesis by simp
    next
      case (Cons y ys)
      with a have "u2 = u1 @ 95 # ys" by auto
      with assms(2) show ?thesis by blast
    qed
  qed
  with assms(3) chunk_key_same_url [of u1 i1 c1 i2 c2] show ?thesis by simp
qed

text \<open>
  Claim C2 fails on the code, which comments the id as unique for the chunk: chunk 2 of a
  document whose address ends in \<open>_1\<close> and chunk 1 of the document without that
  suffix are two distinct triples (documentRef, chunkIndex, chunkText) hashed from the
  same string, so both chunks get the same id.
\<close>

theorem chunk_key_collision:
  "(U ''http://h/a_1'', 2::nat, U ''x'') \<noteq> (U ''http://h/a'', 1, U ''2_x'') \<and>
   chunk_key (U ''http://h/a_1'') 2 (U ''x'') = chunk_key (U ''http://h/a'') 1 (U ''2_x'')"
  by (simp add: chunk_key_def U_def decimal.simps)

section \<open>Running the sample environment\<close>

lemmas demo_defs = demo_env_def demo_env_store_down_def demo_self_def demo_split_def demo_fetch_def
  demo_world_def create_chunks_def save_to_chroma_def no_chunks_def chunk_key_def chunk_metadata_def
  get_or_create_collection_def client_get_or_create_collection_def collection_upsert_def
  store_upsert_def count_items_def collection_count_def enumerate_eq_zip U_def
  process_url_def process_url_try_def process_url_steps_def configure_splitter_def new_splitter_def
  failure_result_def extract_metadata_def py_strip_def py_isspace_def decimal.simps
  demo_metadata_def demo_metadata_later_def demo_self4_def

lemma demo_self_init: "URLChunker_init demo_env [] = Inr demo_self"
  by (simp add: URLChunker_init_def new_splitter_def demo_env_def demo_self_def)

lemma demo_cd_eval: "create_chunks demo_env demo_self4 (U ''abcdefgh'') demo_metadata None = Inr demo_cd"
  by (simp add: demo_cd_def demo_defs)

lemma demo_save_eval: "save_to_chroma demo_env demo_self4 demo_cd (U ''docs'') = (None, demo_self1)"
  by (simp add: demo_self1_def demo_defs)

lemma demo_cd_short_eval:
  "create_chunks demo_env demo_self (U ''abcd'') demo_metadata_later (Some (U ''wiki'')) = Inr demo_cd_short"
  by (simp add: demo_cd_short_def demo_defs)

section \<open>The store\<close>

lemma length_update:
  "length (AList.update k v al) = (if k \<in> fst ` set al then length al else Suc (length al))"
  by (induction al) auto

lemma keys_upsert_records:
  "fst ` set (upsert_records rs c) = fst ` set rs \<union> fst ` set c"
  by (induction rs c rule: upsert_records.induct) (simp_all add: dom_update)

lemma length_upsert_records_existing:
  "fst ` set rs \<subseteq> fst ` set c \<Longrightarrow> length (upsert_records rs c) = length c"
proof (induction rs arbitrary: c)
  case Nil
  then show ?case by simp
next
  case (Cons p rs)
  obtain i r where p: "p = (i, r)" by (cases p)
  from Cons.prems p have i: "i \<in> fst ` set c" by auto
  then have len: "length (AList.update i r c) = length c" by (simp add: length_update)
  from Cons.prems p have "fst ` set rs \<subseteq> fst ` set (AList.update i r c)"
    by (auto simp: dom_update)
  from Cons.IH [OF this] len p show ?case by simp
qed

lemma map_of_get_or_create:
  "map_of (client_get_or_create_collection name db) name =
     Some (case map_of db name of Some c \<Rightarrow> c | None \<Rightarrow> [])"
  by (simp add: client_get_or_create_collection_def map_add_def split: option.splits)

lemma map_of_store_upsert:
  "map_of (store_upsert name ids docs metas db) name =
     map_option (upsert_records (zip ids (zip docs metas))) (map_of db name)"
  by (simp add: store_upsert_def map_of_map_entry split: option.splits)

lemma keys_zip_subset: "fst ` set (zip ids rs) \<subseteq> set ids"
  by (auto dest: set_zip_leftD)

lemma keys_zip_eq: "length ids = length rs \<Longrightarrow> fst ` set (zip ids rs) = set ids"
  by (metis list.set_map map_fst_zip)

section \<open>Chunk creation\<close>

lemma create_chunks_loop_chunks:
  "create_chunks_loop e md src ics acc = Inr cd \<Longrightarrow> cd_chunks cd = cd_chunks acc @ map snd ics"
  by (induction e md src ics acc rule: create_chunks_loop.induct)
     (auto split: option.splits)

lemma create_chunks_loop_ids:
  "create_chunks_loop e md src ics acc = Inr cd \<Longrightarrow> map_of md (U ''url'') = Some u \<Longrightarrow>
   cd_ids cd = cd_ids acc @ map (\<lambda>(i, c). sha256_hexdigest e (chunk_key (py_format u) i c)) ics"
  by (induction e md src ics acc rule: create_chunks_loop.induct)
     (auto split: option.splits)

lemma create_chunks_loop_lengths:
  "create_chunks_loop e md src ics acc = Inr cd \<Longrightarrow>
   length (cd_ids cd) = length (cd_ids acc) + length ics \<and>
   length (cd_metadatas cd) = length (cd_metadatas acc) + length ics"
  by (induction e md src ics acc rule: create_chunks_loop.induct)
     (auto split: option.splits)

lemma create_chunks_loop_url:
  "create_chunks_loop e md src ics acc = Inr cd \<Longrightarrow> ics \<noteq> [] \<Longrightarrow>
   \<exists>u. map_of md (U ''url'') = Some u"
  by (cases ics) (auto split: option.splits)

lemma create_chunks_loop_total:
  "map_of md (U ''url'') = Some u \<Longrightarrow> \<exists>cd. create_chunks_loop e md src ics acc = Inr cd"
  by (induction e md src ics acc rule: create_chunks_loop.induct) auto

lemma create_chunks_chunks:
  "create_chunks e self text md src = Inr cd \<Longrightarrow> split_text e (text_splitter self) text = Inr (cd_chunks cd)"
  by (auto simp: create_chunks_def no_chunks_def map_snd_enumerate
      split: sum.splits dest!: create_chunks_loop_chunks)

lemma create_chunks_ids:
  assumes "create_chunks e self text md src = Inr cd" "map_of md (U ''url'') = Some u"
  shows "cd_ids cd = map (\<lambda>(i, c). sha256_hexdigest e (chunk_key (py_format u) i c))
                          (List.enumerate 0 (cd_chunks cd))"
proof -
  from assms(1) obtain tc where tc: "split_text e (text_splitter self) text = Inr tc"
    and l: "create_chunks_loop e md src (List.enumerate 0 tc) no_chunks = Inr cd"
    by (auto simp: create_chunks_def split: sum.splits)
  from create_chunks_chunks [OF assms(1)] tc have "tc = cd_chunks cd" by simp
  with create_chunks_loop_ids [OF l assms(2)] show ?thesis by (simp add: no_chunks_def)
qed

lemma create_chunks_lengths:
  assumes "create_chunks e self text md src = Inr cd"
  shows "length (cd_ids cd) = length (cd_chunks cd) \<and> length (cd_metadatas cd) = length (cd_chunks cd)"
proof -
  from assms obtain tc where tc: "split_text e (text_splitter self) text = Inr tc"
    and l: "create_chunks_loop e md src (List.enumerate 0 tc) no_chunks = Inr cd"
    by (auto simp: create_chunks_def split: sum.splits)
  from create_chunks_chunks [OF assms] tc have "tc = cd_chunks cd" by simp
  with create_chunks_loop_lengths [OF l] show ?thesis by (simp add: no_chunks_def)
qed

lemma create_chunks_nth_id:
  assumes "create_chunks e self text md src = Inr cd" "map_of md (U ''url'') = Some u"
    "i < length (cd_chunks cd)"
  shows "cd_ids cd ! i = sha256_hexdigest e (chunk_key (py_format u) i (cd_chunks cd ! i))"
  using assms(3) by (simp add: create_chunks_ids [OF assms(1,2)] nth_enumerate_eq)

lemma create_chunks_has_url:
  assumes "create_chunks e self text md src = Inr cd" "cd_chunks cd \<noteq> []"
  shows "\<exists>u. map_of md (U ''url'') = Some u"
proof -
  from assms obtain tc where tc: "split_text e (text_splitter self) text = Inr tc"
    and l: "create_chunks_loop e md src (List.enumerate 0 tc) no_chunks = Inr cd"
    by (auto simp: create_chunks_def split: sum.splits)
  from create_chunks_chunks [OF assms(1)] tc have "tc = cd_chunks cd" by simp
  with assms(2) have "List.enumerate 0 tc \<noteq> []" by (cases "cd_chunks cd") auto
  from create_chunks_loop_url [OF l this] show ?thesis .
qed

text \<open>
  A second run on the same text with the same splitter, library and url builds the same
  ids, whatever else differs.
\<close>

lemma second_create_chunks:
  assumes c1: "create_chunks e self t md1 src1 = Inr cd1"
      and sp: "text_splitter self2 = text_splitter self"
      and lib: "split_text e2 = split_text e" "sha256_hexdigest e2 = sha256_hexdigest e"
      and u: "map_of md2 (U ''url'') = map_of md1 (U ''url'')"
  shows "\<exists>cd2. create_chunks e2 self2 t md2 src2 = Inr cd2 \<and> cd_ids cd2 = cd_ids cd1"
proof -
  have tc: "split_text e (text_splitter self) t = Inr (cd_chunks cd1)"
    by (rule create_chunks_chunks [OF c1])
  show ?thesis
  proof (cases "cd_chunks cd1 = []")
    case True
    with tc sp lib c1 show ?thesis by (simp add: create_chunks_def)
  next
    case False
    from create_chunks_has_url [OF c1 False] obtain v where v: "map_of md1 (U ''url'') = Some v" ..
    with u have v2: "map_of md2 (U ''url'') = Some v" by simp
    from create_chunks_loop_total [OF v2, of e2 src2 "List.enumerate 0 (cd_chunks cd1)" no_chunks]
    obtain cd2 where "create_chunks_loop e2 md2 src2 (List.enumerate 0 (cd_chunks cd1)) no_chunks = Inr cd2" ..
    with tc sp lib have c2: "create_chunks e2 self2 t md2 src2 = Inr cd2"
      by (simp add: create_chunks_def)
    from create_chunks_chunks [OF c2] tc sp lib have "cd_chunks cd2 = cd_chunks cd1" by simp
    with create_chunks_ids [OF c1 v] create_chunks_ids [OF c2 v2] c2 lib show ?thesis by simp
  qed
qed

text \<open>
  Claim C8. The id of a chunk is the digest of the string built from the document's url,
  the chunk's index and the chunk's text, and of nothing else: two runs of
  \<open>create_chunks\<close>, on any two objects (whatever their splitters and stores), texts,
  metadata and source names, give the chunk at index \<open>i\<close> the same id whenever the url,
  the index and the chunk text are the same.
\<close>

theorem chunk_id_deterministic:
  assumes "create_chunks e self1 text1 md1 src1 = Inr cd1"
      and "create_chunks e self2 text2 md2 src2 = Inr cd2"
      and "map_of md1 (U ''url'') = map_of md2 (U ''url'')"
      and "i < length (cd_chunks cd1)" and "i < length (cd_chunks cd2)"
      and "cd_chunks cd1 ! i = cd_chunks cd2 ! i"
  shows "cd_ids cd1 ! i = cd_ids cd2 ! i"
proof -
  from assms(4) have "cd_chunks cd1 \<noteq> []" by auto
  from create_chunks_has_url [OF assms(1) this] obtain u where u: "map_of md1 (U ''url'') = Some u" ..
  with assms(3) have u2: "map_of md2 (U ''url'') = Some u" by simp
  show ?thesis
    using create_chunks_nth_id [OF assms(1) u assms(4)] create_chunks_nth_id [OF assms(2) u2 assms(5)] assms(6)
    by simp
qed

text \<open>
  A text cut into blocks of four characters and a shorter text cut into blocks of a
  thousand, with another date and a source name: the first chunk is the same, and so is
  its id.
\<close>

theorem chunk_id_deterministic_witness:
  "cd_chunks demo_cd ! 0 = cd_chunks demo_cd_short ! 0 \<and> cd_ids demo_cd ! 0 = cd_ids demo_cd_short ! 0"
proof -
  have c: "cd_chunks demo_cd ! 0 = cd_chunks demo_cd_short ! 0"
    by (simp add: demo_cd_def demo_cd_short_def demo_defs)
  have u: "map_of demo_metadata (U ''url'') = map_of demo_metadata_later (U ''url'')"
    by (simp add: demo_metadata_def demo_metadata_later_def U_def)
  have l1: "0 < length (cd_chunks demo_cd)" by (simp add: demo_cd_def demo_defs)
  have l2: "0 < length (cd_chunks demo_cd_short)" by (simp add: demo_cd_short_def demo_defs)
  from chunk_id_deterministic [OF demo_cd_eval demo_cd_short_eval u l1 l2 c] c show ?thesis by simp
qed

section \<open>Ingesting a document twice\<close>

lemma save_to_chroma_count_unchanged:
  assumes c: "map_of (chroma_manager self) coll = Some c"
      and k: "set (cd_ids cd) \<subseteq> fst ` set c"
  shows "count_items coll (chroma_manager (snd (save_to_chroma e self cd coll))) = Inr (length c)"
proof (cases "get_or_create_fault e coll")
  case (Some err)
  with c show ?thesis
    by (simp add: save_to_chroma_def get_or_create_collection_def count_items_def collection_count_def)
next
  case None
  from c have same: "client_get_or_create_collection coll (chroma_manager self) = chroma_manager self"
    by (simp add: client_get_or_create_collection_def)
  have len: "length (upsert_records (zip (take n (cd_ids cd)) rs) c) = length c" for n rs
  proof (rule length_upsert_records_existing)
    have "fst ` set (zip (take n (cd_ids cd)) rs) \<subseteq> set (take n (cd_ids cd))"
      by (rule keys_zip_subset)
    also have "\<dots> \<subseteq> set (cd_ids cd)" by (rule set_take_subset)
    finally show "fst ` set (zip (take n (cd_ids cd)) rs) \<subseteq> fst ` set c" using k by blast
  qed
  have len': "length (upsert_records (zip (cd_ids cd) rs) c) = length c" for rs
    using len [of "length (cd_ids cd)" rs] by simp
  show ?thesis
    using None c same len len'
    by (simp add: save_to_chroma_def get_or_create_collection_def collection_upsert_def
        count_items_def collection_count_def map_of_store_upsert split: option.splits prod.splits)
qed

lemma save_to_chroma_ok:
  assumes s: "save_to_chroma e self cd coll = (None, self1)"
      and l: "length (cd_ids cd) = length (cd_chunks cd)" "length (cd_metadatas cd) = length (cd_chunks cd)"
  shows "text_splitter self1 = text_splitter self \<and>
         (\<exists>c. map_of (chroma_manager self1) coll = Some c \<and> set (cd_ids cd) \<subseteq> fst ` set c)"
proof -
  from s have g: "get_or_create_fault e coll = None" and u: "upsert_fault e coll (cd_ids cd) = None"
    by (auto simp: save_to_chroma_def get_or_create_collection_def collection_upsert_def
        split: option.splits sum.splits prod.splits)
  let ?db1 = "client_get_or_create_collection coll (chroma_manager self)"
  from s g u have self1: "self1 = self\<lparr>chroma_manager :=
      store_upsert coll (cd_ids cd) (cd_chunks cd) (cd_metadatas cd) ?db1\<rparr>"
    by (auto simp: save_to_chroma_def get_or_create_collection_def collection_upsert_def)
  let ?rs = "zip (cd_ids cd) (zip (cd_chunks cd) (cd_metadatas cd))"
  let ?c0 = "case map_of (chroma_manager self) coll of Some c \<Rightarrow> c | None \<Rightarrow> []"
  have m: "map_of (chroma_manager self1) coll = Some (upsert_records ?rs ?c0)"
    by (simp add: self1 map_of_store_upsert map_of_get_or_create)
  have "fst ` set ?rs = set (cd_ids cd)"
    by (rule keys_zip_eq) (simp add: l)
  then have "set (cd_ids cd) \<subseteq> fst ` set (upsert_records ?rs ?c0)"
    by (simp add: keys_upsert_records)
  with m self1 show ?thesis by simp
qed

text \<open>
  Claim C3. A source document (text, metadata, source name) is ingested by
  \<open>create_chunks\<close> followed by \<open>save_to_chroma\<close>. After a first ingestion that
  succeeded, a second ingestion of the same text under the same url, whatever its other
  metadata (the processing date differs from run to run), its source name and the faults
  of the store, builds the same sequence of chunk ids and leaves the count of the
  collection as the first ingestion left it.
\<close>

theorem ingest_twice_count_unchanged:
  assumes c1: "create_chunks e self text md1 src1 = Inr cd1"
      and s1: "save_to_chroma e self cd1 coll = (None, self1)"
      and u: "map_of md2 (U ''url'') = map_of md1 (U ''url'')"
  shows "\<exists>cd2 n. create_chunks e self1 text md2 src2 = Inr cd2 \<and> cd_ids cd2 = cd_ids cd1 \<and>
           count_items coll (chroma_manager self1) = Inr n \<and>
           count_items coll (chroma_manager (snd (save_to_chroma e2 self1 cd2 coll))) = Inr n"
proof -
  from create_chunks_lengths [OF c1] save_to_chroma_ok [OF s1]
  obtain c where sp: "text_splitter self1 = text_splitter self"
    and c: "map_of (chroma_manager self1) coll = Some c"
    and k: "set (cd_ids cd1) \<subseteq> fst ` set c" by auto
  from second_create_chunks [OF c1 sp refl refl u]
  obtain cd2 where c2: "create_chunks e self1 text md2 src2 = Inr cd2"
    and ids: "cd_ids cd2 = cd_ids cd1" by blast
  from k ids have "set (cd_ids cd2) \<subseteq> fst ` set c" by simp
  from save_to_chroma_count_unchanged [OF c this]
  have "count_items coll (chroma_manager (snd (save_to_chroma e2 self1 cd2 coll))) = Inr (length c)" .
  moreover from c have "count_items coll (chroma_manager self1) = Inr (length c)"
    by (simp add: count_items_def collection_count_def)
  ultimately show ?thesis using c2 ids by blast
qed

text \<open>
  The sample document is ingested again with a later date and a source name, into a
  store that fails on the second write.
\<close>

theorem ingest_twice_count_unchanged_witness:
  "\<exists>cd2 n. create_chunks demo_env demo_self1 (U ''abcdefgh'') demo_metadata_later (Some (U ''wiki'')) = Inr cd2 \<and>
     cd_ids cd2 = cd_ids demo_cd \<and>
     count_items (U ''docs'') (chroma_manager demo_self1) = Inr n \<and>
     count_items (U ''docs'')
       (chroma_manager (snd (save_to_chroma demo_env_store_down demo_self1 cd2 (U ''docs'')))) = Inr n"
  by (rule ingest_twice_count_unchanged [OF demo_cd_eval demo_save_eval])
     (simp add: demo_metadata_def demo_metadata_later_def U_def)

section \<open>Processing one url\<close>

lemma py_strip_empty_iff: "py_strip s = [] \<longleftrightarrow> (\<forall>c\<in>set s. py_isspace c)"
proof
  assume "py_strip s = []"
  then have a: "dropWhile py_isspace (rev (dropWhile py_isspace s)) = []"
    by (simp add: py_strip_def)
  show "\<forall>c\<in>set s. py_isspace c"
  proof (cases "dropWhile py_isspace s")
    case Nil
    then show ?thesis by (simp add: dropWhile_eq_Nil_conv)
  next
    case (Cons x xs)
    then have "\<not> py_isspace x" using hd_dropWhile [of py_isspace s] by auto
    moreover from a Cons have "py_isspace x" by (auto simp: dropWhile_eq_Nil_conv)
    ultimately show ?thesis by contradiction
  qed
next
  assume "\<forall>c\<in>set s. py_isspace c"
  then show "py_strip s = []" by (auto simp: py_strip_def dest: set_dropWhileD)
qed

lemma save_to_chroma_splitter:
  "text_splitter (snd (save_to_chroma e self cd coll)) = text_splitter self"
  by (simp add: save_to_chroma_def split: sum.splits prod.splits)

lemma process_url_steps_splitter:
  "text_splitter (snd (process_url_steps e url coll src self)) = text_splitter self"
proof -
  have s: "save_to_chroma e self cd coll = (r, self') \<Longrightarrow> text_splitter self' = text_splitter self"
    for cd r self' using save_to_chroma_splitter [of e self cd coll] by simp
  show ?thesis
    by (auto simp: process_url_steps_def Let_def split: sum.splits prod.splits option.splits dest: s)
qed

lemma process_url_default:
  "process_url e url coll 1000 200 src self =
     (case process_url_steps e url coll src self of
        (Inr r, self') \<Rightarrow> (r, self')
      | (Inl err, self') \<Rightarrow> (failure_result err url, self'))"
  by (simp add: process_url_def process_url_try_def configure_splitter_def)

text \<open>A call with the sizes 1000 and 200 leaves the splitter of the object as it finds it.\<close>

lemma process_url_keeps_splitter:
  "text_splitter (snd (process_url e url coll 1000 200 src self)) = text_splitter self"
  using process_url_steps_splitter [of e url coll src self]
  by (cases "process_url_steps e url coll src self") (auto simp: process_url_default split: sum.splits)

lemma process_url_url: "r_url (fst (process_url e url coll cs co src self)) = url"
  by (auto simp: process_url_def process_url_try_def process_url_steps_def failure_result_def Let_def
      split: sum.splits prod.splits option.splits)

text \<open>A call that reports success went through every step.\<close>

lemma process_url_success:
  assumes "process_url e url coll cs co src self = (r, self1)" "r_success r"
  shows "\<exists>selfc html status t cd.
           configure_splitter e cs co self = Inr selfc \<and>
           fetch_content e url = Inr (html, status) \<and> extract_text e html = Inr t \<and>
           create_chunks e selfc t (extract_metadata e html url) src = Inr cd \<and>
           save_to_chroma e selfc cd coll = (None, self1)"
proof (cases "configure_splitter e cs co self")
  case (Inl err)
  with assms show ?thesis
    by (auto simp: process_url_def process_url_try_def failure_result_def)
next
  case (Inr selfc)
  with assms have s: "(case process_url_steps e url coll src selfc of
        (Inr r, self') \<Rightarrow> (r, self') | (Inl err, self') \<Rightarrow> (failure_result err url, self')) = (r, self1)"
    by (simp add: process_url_def process_url_try_def)
  show ?thesis
  proof (cases "fetch_content e url")
    case (Inl err)
    with s assms(2) show ?thesis by (auto simp: process_url_steps_def failure_result_def)
  next
    case f: (Inr p)
    obtain html status where p: "p = (html, status)" by (cases p)
    show ?thesis
    proof (cases "extract_text e html")
      case (Inl err)
      with s f p assms(2) show ?thesis by (auto simp: process_url_steps_def failure_result_def)
    next
      case x: (Inr t)
      show ?thesis
      proof (cases "create_chunks e selfc t (extract_metadata e html url) src")
        case (Inl err)
        with s f p x assms(2) show ?thesis
          by (auto simp: process_url_steps_def failure_result_def Let_def split: if_splits)
      next
        case c: (Inr cd)
        obtain o' self' where sv: "save_to_chroma e selfc cd coll = (o', self')"
          by (cases "save_to_chroma e selfc cd coll")
        with s f p x c assms(2) have "o' = None \<and> self' = self1"
          by (cases o') (auto simp: process_url_steps_def failure_result_def Let_def split: if_splits)
        with sv f p x c Inr show ?thesis by simp
      qed
    qed
  qed
qed

lemma configure_splitter_again:
  assumes "configure_splitter e cs co self = Inr selfc"
      and "text_splitter self1 = text_splitter selfc"
      and "configure_splitter e2 cs co self1 = Inr selfc2"
  shows "text_splitter selfc2 = text_splitter selfc \<and> chroma_manager selfc2 = chroma_manager self1"
  using assms
  by (auto simp: configure_splitter_def new_splitter_def split: if_splits option.splits)

text \<open>
  Through \<open>process_url\<close>: when a call has succeeded and the same call is made again
  while the address serves the same page, the count of the collection does not change,
  whatever the second call's clock, constructor and store faults are.
\<close>

lemma process_url_twice_count_unchanged:
  assumes first: "process_url e url coll cs co src self = (r, self1)" "r_success r"
      and page: "fetch_content e2 url = fetch_content e url" "extract_text e2 = extract_text e"
      and lib: "split_text e2 = split_text e" "sha256_hexdigest e2 = sha256_hexdigest e"
  shows "count_items coll (chroma_manager (snd (process_url e2 url coll cs co src self1))) =
         count_items coll (chroma_manager self1)"
proof -
  from process_url_success [OF first]
  obtain selfc html status t cd where cfg: "configure_splitter e cs co self = Inr selfc"
    and f: "fetch_content e url = Inr (html, status)" and x: "extract_text e html = Inr t"
    and c: "create_chunks e selfc t (extract_metadata e html url) src = Inr cd"
    and s: "save_to_chroma e selfc cd coll = (None, self1)" by blast
  from create_chunks_lengths [OF c] save_to_chroma_ok [OF s]
  obtain col where sp: "text_splitter self1 = text_splitter selfc"
    and col: "map_of (chroma_manager self1) coll = Some col"
    and k: "set (cd_ids cd) \<subseteq> fst ` set col" by auto
  show ?thesis
  proof (cases "configure_splitter e2 cs co self1")
    case (Inl err)
    then show ?thesis by (simp add: process_url_def process_url_try_def)
  next
    case (Inr selfc2)
    from configure_splitter_again [OF cfg sp Inr]
    have sp2: "text_splitter selfc2 = text_splitter selfc" and db2: "chroma_manager selfc2 = chroma_manager self1"
      by simp_all
    have u: "map_of (extract_metadata e2 html url) (U ''url'') = map_of (extract_metadata e html url) (U ''url'')"
      by (simp add: extract_metadata_def split: sum.splits)
    from second_create_chunks [OF c sp2 lib u]
    obtain cd2 where c2: "create_chunks e2 selfc2 t (extract_metadata e2 html url) src = Inr cd2"
      and ids: "cd_ids cd2 = cd_ids cd" by blast
    from col db2 have col2: "map_of (chroma_manager selfc2) coll = Some col" by simp
    from k ids have k2: "set (cd_ids cd2) \<subseteq> fst ` set col" by simp
    have cnt: "count_items coll (chroma_manager (snd (save_to_chroma e2 selfc2 cd2 coll))) = Inr (length col)"
      by (rule save_to_chroma_count_unchanged [OF col2 k2])
    have now: "count_items coll (chroma_manager self1) = Inr (length col)"
      using col by (simp add: count_items_def collection_count_def)
    obtain o' self' where sv: "save_to_chroma e2 selfc2 cd2 coll = (o', self')"
      by (cases "save_to_chroma e2 selfc2 cd2 coll")
    with cnt have cnt': "count_items coll (chroma_manager self') = Inr (length col)" by simp
    show ?thesis
      using Inr f x c2 sv cnt' now db2 page
      by (cases o'; cases "py_strip t = []")
         (simp_all add: process_url_def process_url_try_def process_url_steps_def Let_def)
  qed
qed

text \<open>
  Claim C4 fails on the code. \<open>process_url\<close> replaces the object's splitter only when
  its arguments differ from 1000 and 200, and \<open>create_chunks\<close> reads whatever splitter
  the object holds. The same call, with the same url, collection and the sizes 1000 and
  200, creates one chunk on a fresh object and two chunks on an object that has served a
  call with \<open>chunk_size = 4\<close> before.
\<close>

theorem process_url_stale_splitter:
  "r_chunks_created (fst (process_url demo_env (U ''http://h/a'') (U ''docs'') 1000 200 None demo_self)) = 1 \<and>
   r_chunks_created (fst (process_url demo_env (U ''http://h/a'') (U ''docs'') 1000 200 None
      (snd (process_url demo_env (U ''http://h/b'') (U ''other'') 4 0 None demo_self)))) = 2"
  by (simp add: demo_defs)

text \<open>
  Claim C5, as amended. \<open>process_url\<close> checks nothing itself: values with
  \<open>chunk_overlap \<ge> chunk_size\<close> or \<open>chunk_size \<le> 0\<close> always reach the splitter's
  constructor. If the constructor raises, the call returns the failure result with the
  constructor's message and \<open>chunks_created = 0\<close>, and the object (splitter and store)
  is as before; if the constructor accepts the values, the call behaves as a call with the
  sizes 1000 and 200 on an object that holds a splitter with these values.
\<close>

theorem process_url_invalid_policy:
  assumes "chunk_size \<le> chunk_overlap \<or> chunk_size \<le> 0"
  shows "(splitter_init_error e chunk_size chunk_overlap = Some err \<longrightarrow>
            process_url e url coll chunk_size chunk_overlap src self = (failure_result err url, self)) \<and>
         (splitter_init_error e chunk_size chunk_overlap = None \<longrightarrow>
            process_url e url coll chunk_size chunk_overlap src self =
            process_url e url coll 1000 200 src
              (self\<lparr>text_splitter := \<lparr>sp_chunk_size = chunk_size, sp_chunk_overlap = chunk_overlap,
                                       sp_separators = Some url_separators\<rparr>\<rparr>))"
proof -
  from assms have "chunk_size \<noteq> 1000 \<or> chunk_overlap \<noteq> 200" by auto
  then show ?thesis
    by (auto simp: process_url_def process_url_try_def configure_splitter_def new_splitter_def)
qed

text \<open>
  In the sample environment the constructor refuses the sizes 5 and 6 and accepts the
  sizes 5 and 5.
\<close>

theorem process_url_invalid_policy_witness:
  "process_url demo_env (U ''http://h/b'') (U ''docs'') 5 6 None demo_self =
     (failure_result (U ''overlap larger than chunk size'') (U ''http://h/b''), demo_self) \<and>
   process_url demo_env (U ''http://h/b'') (U ''docs'') 5 5 None demo_self =
     process_url demo_env (U ''http://h/b'') (U ''docs'') 1000 200 None
       (demo_self\<lparr>text_splitter := \<lparr>sp_chunk_size = 5, sp_chunk_overlap = 5,
                                       sp_separators = Some url_separators\<rparr>\<rparr>)"
proof -
  have a: "(5::int) \<le> 6 \<or> (5::int) \<le> 0" and b: "(5::int) \<le> 5 \<or> (5::int) \<le> 0" by simp_all
  have r: "splitter_init_error demo_env 5 6 = Some (U ''overlap larger than chunk size'')"
    and k: "splitter_init_error demo_env 5 5 = None"
    by (simp_all add: demo_env_def)
  from process_url_invalid_policy [OF a, of demo_env "U ''overlap larger than chunk size''"
      "U ''http://h/b''" "U ''docs''" None demo_self] r
    process_url_invalid_policy [OF b, of demo_env "[]" "U ''http://h/b''" "U ''docs''" None demo_self] k
  show ?thesis by blast
qed

text \<open>
  Claim C5 as stated fails: with a constructor that refuses only an overlap larger than
  the chunk size, a call with \<open>chunk_overlap = chunk_size = 5\<close> is not rejected. It
  succeeds, creates the collection and writes a record.
\<close>

theorem process_url_accepts_equal_overlap:
  "r_success (fst (process_url demo_env (U ''http://h/b'') (U ''docs'') 5 5 None demo_self)) \<and>
   count_items (U ''docs'') (chroma_manager demo_self) = Inl (U ''Collection does not exist'') \<and>
   count_items (U ''docs'')
     (chroma_manager (snd (process_url demo_env (U ''http://h/b'') (U ''docs'') 5 5 None demo_self))) = Inr 1"
  by (simp add: demo_defs)

text \<open>
  Claim C6. Once the splitter is configured, whichever step raises (the fetch, the text
  extraction, the chunk creation, or the write to the store), \<open>process_url\<close> returns the
  failure result: \<open>success = False\<close>, the message of the error that was raised, the url,
  and \<open>chunks_created = 0\<close>. \<open>process_url\<close> returns a result on every path; no error
  leaves it.
\<close>

theorem process_url_reports_failure:
  assumes cfg: "configure_splitter e chunk_size chunk_overlap self = Inr self1"
      and fail:
        "fetch_content e url = Inl err \<or>
         (\<exists>html status. fetch_content e url = Inr (html, status) \<and> extract_text e html = Inl err) \<or>
         (\<exists>html status text. fetch_content e url = Inr (html, status) \<and> extract_text e html = Inr text \<and>
             py_strip text \<noteq> [] \<and>
             create_chunks e self1 text (extract_metadata e html url) source_name = Inl err) \<or>
         (\<exists>html status text cd. fetch_content e url = Inr (html, status) \<and> extract_text e html = Inr text \<and>
             py_strip text \<noteq> [] \<and>
             create_chunks e self1 text (extract_metadata e html url) source_name = Inr cd \<and>
             fst (save_to_chroma e self1 cd coll) = Some err)"
  shows "fst (process_url e url coll chunk_size chunk_overlap source_name self) =
           \<lparr>r_success = False, r_error = Some err, r_url = url, r_chunks_created = 0,
            r_total_characters = None, r_processing_time = None, r_metadata = None\<rparr>"
  using fail
proof (elim disjE exE conjE)
  assume "fetch_content e url = Inl err"
  with cfg show ?thesis
    by (simp add: process_url_def process_url_try_def process_url_steps_def failure_result_def)
next
  fix html status
  assume "fetch_content e url = Inr (html, status)" "extract_text e html = Inl err"
  with cfg show ?thesis
    by (simp add: process_url_def process_url_try_def process_url_steps_def failure_result_def)
next
  fix html status t
  assume "fetch_content e url = Inr (html, status)" "extract_text e html = Inr t"
    "py_strip t \<noteq> []" "create_chunks e self1 t (extract_metadata e html url) source_name = Inl err"
  with cfg show ?thesis
    by (simp add: process_url_def process_url_try_def process_url_steps_def failure_result_def)
next
  fix html status t cd
  assume a: "fetch_content e url = Inr (html, status)" "extract_text e html = Inr t"
    "py_strip t \<noteq> []" "create_chunks e self1 t (extract_metadata e html url) source_name = Inr cd"
    and s: "fst (save_to_chroma e self1 cd coll) = Some err"
  obtain self2 where "save_to_chroma e self1 cd coll = (Some err, self2)"
    using s by (cases "save_to_chroma e self1 cd coll") auto
  with cfg a show ?thesis
    by (simp add: process_url_def process_url_try_def process_url_steps_def failure_result_def)
qed

text \<open>
  An address that cannot be fetched, and a store that refuses the write.
\<close>

theorem process_url_reports_failure_witness:
  "fst (process_url demo_env (U ''http://down'') (U ''docs'') 1000 200 None demo_self) =
     \<lparr>r_success = False, r_error = Some (U ''connection refused''), r_url = U ''http://down'',
      r_chunks_created = 0, r_total_characters = None, r_processing_time = None, r_metadata = None\<rparr> \<and>
   fst (process_url demo_env_store_down (U ''http://h/a'') (U ''docs'') 4 0 None demo_self) =
     \<lparr>r_success = False, r_error = Some (U ''store unavailable''), r_url = U ''http://h/a'',
      r_chunks_created = 0, r_total_characters = None, r_processing_time = None, r_metadata = None\<rparr>"
proof -
  have c1: "configure_splitter demo_env 1000 200 demo_self = Inr demo_self"
    by (simp add: configure_splitter_def)
  have f1: "fetch_content demo_env (U ''http://down'') = Inl (U ''connection refused'')"
    by (simp add: demo_env_def demo_fetch_def)
  have c2: "configure_splitter demo_env_store_down 4 0 demo_self = Inr demo_self4"
    by (simp add: demo_defs)
  have f2: "fetch_content demo_env_store_down (U ''http://h/a'') = Inr (U ''abcdefgh'', 200)"
    by (simp add: demo_defs)
  have x2: "extract_text demo_env_store_down (U ''abcdefgh'') = Inr (U ''abcdefgh'')"
    by (simp add: demo_defs)
  have s2: "py_strip (U ''abcdefgh'') \<noteq> []" by (simp add: demo_defs)
  obtain cd where k2: "create_chunks demo_env_store_down demo_self4 (U ''abcdefgh'')
        (extract_metadata demo_env_store_down (U ''abcdefgh'') (U ''http://h/a'')) None = Inr cd"
    by (simp add: demo_defs)
  have w2: "fst (save_to_chroma demo_env_store_down demo_self4 cd (U ''docs'')) = Some (U ''store unavailable'')"
    by (simp add: demo_defs)
  from f2 x2 s2 k2 w2 have d2: "fetch_content demo_env_store_down (U ''http://h/a'') = Inl (U ''store unavailable'') \<or>
         (\<exists>html status. fetch_content demo_env_store_down (U ''http://h/a'') = Inr (html, status) \<and> extract_text demo_env_store_down html = Inl (U ''store unavailable'')) \<or>
         (\<exists>html status t. fetch_content demo_env_store_down (U ''http://h/a'') = Inr (html, status) \<and> extract_text demo_env_store_down html = Inr t \<and>
             py_strip t \<noteq> [] \<and>
             create_chunks demo_env_store_down demo_self4 t (extract_metadata demo_env_store_down html (U ''http://h/a'')) None = Inl (U ''store unavailable'')) \<or>
         (\<exists>html status t cd. fetch_content demo_env_store_down (U ''http://h/a'') = Inr (html, status) \<and> extract_text demo_env_store_down html = Inr t \<and>
             py_strip t \<noteq> [] \<and>
             create_chunks demo_env_store_down demo_self4 t (extract_metadata demo_env_store_down html (U ''http://h/a'')) None = Inr cd \<and>
             fst (save_to_chroma demo_env_store_down demo_self4 cd (U ''docs'')) = Some (U ''store unavailable''))"
    by blast
  from process_url_reports_failure [OF c1, of "U ''http://down''" "U ''connection refused''" None "U ''docs''"] f1
    process_url_reports_failure [OF c2 d2]
  show ?thesis by blast
qed

text \<open>
  Claim C10. When the extracted text is empty or consists of whitespace only, the call
  returns \<open>success = False\<close> and \<open>chunks_created = 0\<close>, and the store is the one the
  object had before the call: no collection is created and nothing is written.
\<close>

theorem process_url_blank_text:
  assumes "fetch_content e url = Inr (html, status)"
      and "extract_text e html = Inr text"
      and "\<forall>c\<in>set text. py_isspace c"
  shows "r_success (fst (process_url e url coll chunk_size chunk_overlap src self)) = False \<and>
         r_chunks_created (fst (process_url e url coll chunk_size chunk_overlap src self)) = 0 \<and>
         chroma_manager (snd (process_url e url coll chunk_size chunk_overlap src self)) = chroma_manager self"
proof -
  from assms(3) have "py_strip text = []" by (simp add: py_strip_empty_iff)
  with assms(1,2) show ?thesis
    by (auto simp: process_url_def process_url_try_def configure_splitter_def new_splitter_def
        process_url_steps_def failure_result_def Let_def split: option.splits)
qed

text \<open>
  The blank page of the sample environment, on an object with an empty store.
\<close>

theorem process_url_blank_text_witness:
  "r_success (fst (process_url demo_env (U ''http://blank'') (U ''docs'') 1000 200 None demo_self)) = False \<and>
   r_chunks_created (fst (process_url demo_env (U ''http://blank'') (U ''docs'') 1000 200 None demo_self)) = 0 \<and>
   chroma_manager (snd (process_url demo_env (U ''http://blank'') (U ''docs'') 1000 200 None demo_self)) = []"
proof -
  have f: "fetch_content demo_env (U ''http://blank'') = Inr (U ''   '', 200)"
    by (simp add: demo_defs)
  have x: "extract_text demo_env (U ''   '') = Inr (U ''   '')" by (simp add: demo_defs)
  have b: "\<forall>c\<in>set (U ''   ''). py_isspace c" by (simp add: U_def py_isspace_def)
  from process_url_blank_text [OF f x b, of "U ''docs''" 1000 200 None demo_self]
  show ?thesis by (simp add: demo_self_def)
qed

section \<open>Processing several urls\<close>

lemma loop_results_prefix:
  "fst (process_multiple_urls_loop w k urls coll cs co src self results) =
     results @ fst (process_multiple_urls_loop w k urls coll cs co src self [])"
proof (induction urls arbitrary: k self results)
  case Nil
  then show ?case by simp
next
  case (Cons url urls)
  obtain r self' where p: "process_url (w k) url coll cs co src self = (r, self')"
    by (cases "process_url (w k) url coll cs co src self")
  show ?case
    using Cons.IH [of "Suc k" self' "results @ [r]"] Cons.IH [of "Suc k" self' "[r]"]
    by (simp add: p)
qed

lemma loop_state:
  "snd (process_multiple_urls_loop w k urls coll cs co src self results) =
     snd (process_multiple_urls_loop w k urls coll cs co src self [])"
proof (induction urls arbitrary: k self results)
  case Nil
  then show ?case by simp
next
  case (Cons url urls)
  obtain r self' where p: "process_url (w k) url coll cs co src self = (r, self')"
    by (cases "process_url (w k) url coll cs co src self")
  show ?case
    using Cons.IH [of "Suc k" self' "results @ [r]"] Cons.IH [of "Suc k" self' "[r]"]
    by (simp add: p)
qed

lemma loop_length:
  "length (fst (process_multiple_urls_loop w k urls coll cs co src self results)) =
     length results + length urls"
proof (induction urls arbitrary: k self results)
  case Nil
  then show ?case by simp
next
  case (Cons url urls)
  obtain r self' where p: "process_url (w k) url coll cs co src self = (r, self')"
    by (cases "process_url (w k) url coll cs co src self")
  show ?case using Cons.IH [of "Suc k" self' "results @ [r]"] by (simp add: p)
qed

lemma loop_nth:
  "j < length urls \<Longrightarrow>
   fst (process_multiple_urls_loop w k urls coll cs co src self []) ! j =
     fst (process_url (w (k + j)) (urls ! j) coll cs co src
            (snd (process_multiple_urls_loop w k (take j urls) coll cs co src self [])))"
proof (induction urls arbitrary: k self j)
  case Nil
  then show ?case by simp
next
  case (Cons url urls)
  obtain r self' where p: "process_url (w k) url coll cs co src self = (r, self')"
    by (cases "process_url (w k) url coll cs co src self")
  have unfold: "fst (process_multiple_urls_loop w k (url # urls) coll cs co src self []) =
      r # fst (process_multiple_urls_loop w (Suc k) urls coll cs co src self' [])"
    using loop_results_prefix [of w "Suc k" urls coll cs co src self' "[r]"] by (simp add: p)
  show ?case
  proof (cases j)
    case 0
    with p unfold show ?thesis by simp
  next
    case (Suc i)
    with Cons.prems have i: "i < length urls" by simp
    have "snd (process_multiple_urls_loop w k (take j (url # urls)) coll cs co src self []) =
          snd (process_multiple_urls_loop w (Suc k) (take i urls) coll cs co src self' [])"
      using loop_state [of w "Suc k" "take i urls" coll cs co src self' "[r]"] by (simp add: Suc p)
    with Cons.IH [OF i, of "Suc k" self'] unfold Suc show ?thesis by simp
  qed
qed

text \<open>
  Claim C7. \<open>process_multiple_urls\<close> returns one result for each url, in the order of
  the urls: the result at position \<open>j\<close> carries the url at position \<open>j\<close>, and it is what
  \<open>process_url\<close> returns for that url on the object as the first \<open>j\<close> urls left it,
  whether they succeeded or failed.
\<close>

theorem process_multiple_urls_one_result_each:
  "length (fst (process_multiple_urls w urls coll cs co src self)) = length urls \<and>
   (\<forall>j<length urls.
      fst (process_multiple_urls w urls coll cs co src self) ! j =
        fst (process_url (w j) (urls ! j) coll cs co src
               (snd (process_multiple_urls w (take j urls) coll cs co src self))) \<and>
      r_url (fst (process_multiple_urls w urls coll cs co src self) ! j) = urls ! j)"
  using loop_nth [of _ urls w 0 coll cs co src self]
  by (simp add: process_multiple_urls_def loop_length process_url_url)

text \<open>
  Three urls of which the second cannot be fetched: three results, the second a
  failure, the third processed after it.
\<close>

theorem process_multiple_urls_one_result_each_witness:
  "length (fst (process_multiple_urls demo_world [U ''http://h/a'', U ''http://down'', U ''http://h/b'']
        (U ''docs'') 1000 200 None demo_self)) = 3 \<and>
   map r_success (fst (process_multiple_urls demo_world [U ''http://h/a'', U ''http://down'', U ''http://h/b'']
        (U ''docs'') 1000 200 None demo_self)) = [True, False, True] \<and>
   fst (process_multiple_urls demo_world [U ''http://h/a'', U ''http://down'', U ''http://h/b'']
        (U ''docs'') 1000 200 None demo_self) ! 2 =
     fst (process_url (demo_world 2) (U ''http://h/b'') (U ''docs'') 1000 200 None
        (snd (process_multiple_urls demo_world [U ''http://h/a'', U ''http://down'']
           (U ''docs'') 1000 200 None demo_self)))"
proof -
  let ?urls = "[U ''http://h/a'', U ''http://down'', U ''http://h/b'']"
  have s: "map r_success (fst (process_multiple_urls demo_world ?urls (U ''docs'') 1000 200 None demo_self))
      = [True, False, True]"
    by (simp add: process_multiple_urls_def demo_defs)
  from process_multiple_urls_one_result_each [of demo_world ?urls "U ''docs''" 1000 200 None demo_self]
  have "length (fst (process_multiple_urls demo_world ?urls (U ''docs'') 1000 200 None demo_self)) = length ?urls"
    and "fst (process_multiple_urls demo_world ?urls (U ''docs'') 1000 200 None demo_self) ! 2 =
        fst (process_url (demo_world 2) (?urls ! 2) (U ''docs'') 1000 200 None
               (snd (process_multiple_urls demo_world (take 2 ?urls) (U ''docs'') 1000 200 None demo_self)))"
    by (blast, (elim conjE allE [of _ 2], simp))
  with s show ?thesis by simp
qed

section \<open>Content-only ids in \<open>add_texts\<close>\<close>

lemma add_texts_chunks_result:
  "add_texts_chunks e ms src i cs acc =
     \<lparr>cd_chunks = cd_chunks acc @ cs,
      cd_ids = cd_ids acc @ map (sha256_hexdigest e) cs,
      cd_metadatas = cd_metadatas acc @ replicate (length cs) (current_metadata ms src i)\<rparr>"
  by (induction cs arbitrary: acc) (simp_all add: replicate_app_Cons_same)

lemma add_texts_loop_ok:
  "add_texts_loop e sp ms src its acc = Inr cd \<Longrightarrow>
   cd_ids acc = map (sha256_hexdigest e) (cd_chunks acc) \<and>
     length (cd_metadatas acc) = length (cd_chunks acc) \<Longrightarrow>
   cd_ids cd = map (sha256_hexdigest e) (cd_chunks cd) \<and>
     length (cd_metadatas cd) = length (cd_chunks cd)"
proof (induction e sp ms src its acc rule: add_texts_loop.induct)
  case (1 e sp ms src acc)
  then show ?case by simp
next
  case (2 e sp ms src i t rest acc)
  from "2.prems"(1) obtain sc where sc: "split_text e sp t = Inr sc"
    and l: "add_texts_loop e sp ms src rest (add_texts_chunks e ms src i sc acc) = Inr cd"
    by (auto split: sum.splits)
  from "2.prems"(2)
  have "cd_ids (add_texts_chunks e ms src i sc acc) =
          map (sha256_hexdigest e) (cd_chunks (add_texts_chunks e ms src i sc acc)) \<and>
        length (cd_metadatas (add_texts_chunks e ms src i sc acc)) =
          length (cd_chunks (add_texts_chunks e ms src i sc acc))"
    by (simp add: add_texts_chunks_result)
  from "2.IH" [OF sc l this] show ?case .
qed

text \<open>Every id is the digest of the chunk's text alone.\<close>

lemma add_texts_ids:
  assumes "add_texts_loop e sp metadatas source_name its no_chunks = Inr cd"
  shows "cd_ids cd = map (sha256_hexdigest e) (cd_chunks cd) \<and>
         length (cd_metadatas cd) = length (cd_chunks cd)"
proof -
  have "cd_ids no_chunks = map (sha256_hexdigest e) (cd_chunks no_chunks) \<and>
        length (cd_metadatas no_chunks) = length (cd_chunks no_chunks)"
    by (simp add: no_chunks_def)
  from add_texts_loop_ok [OF assms this] show ?thesis .
qed

text \<open>
  \<open>add_texts\<close> removes no repeats: when the collection is obtained, the splitter is
  built and there is a chunk, the call is one \<open>upsert\<close> of the lists as the loops built
  them, and chunks that repeat give ids that repeat.
\<close>

lemma add_texts_repeats_reach_upsert:
  assumes "add_texts_loop e \<lparr>sp_chunk_size = chunk_size, sp_chunk_overlap = chunk_overlap,
                              sp_separators = None\<rparr>
             metadatas source_name (List.enumerate 0 texts) no_chunks = Inr cd"
      and "get_or_create_fault e coll = None"
      and "splitter_init_error e chunk_size chunk_overlap = None"
      and "cd_chunks cd \<noteq> []"
  shows "add_texts e coll texts metadatas source_name chunk_size chunk_overlap db =
           collection_upsert e coll cd (client_get_or_create_collection coll db) \<and>
         (\<not> distinct (cd_chunks cd) \<longrightarrow> \<not> distinct (cd_ids cd))"
proof -
  from add_texts_ids [OF assms(1)] have "cd_ids cd = map (sha256_hexdigest e) (cd_chunks cd)" by simp
  then have "\<not> distinct (cd_chunks cd) \<longrightarrow> \<not> distinct (cd_ids cd)"
    by (auto simp: distinct_map)
  with assms show ?thesis
    by (simp add: add_texts_def get_or_create_collection_def)
qed

text \<open>
  Claim C9 fails on the code. Two texts that split into three equal chunks give three
  equal ids, and all three are handed to one \<open>upsert\<close>. A store that refuses a batch
  in which an id occurs twice raises: \<open>add_texts\<close> re-raises the error and the
  collection holds no record, where the claim keeps one record with the metadata of the
  later occurrence.
\<close>

theorem add_texts_repeated_chunks:
  "fst (add_texts demo_env_unique_ids (U ''docs'') [U ''abab'', U ''ab'']
          (Some [[(U ''n'', PInt 1)], [(U ''n'', PInt 2)]]) None 2 0 []) \<noteq> None \<and>
   count_items (U ''docs'')
     (snd (add_texts demo_env_unique_ids (U ''docs'') [U ''abab'', U ''ab'']
          (Some [[(U ''n'', PInt 1)], [(U ''n'', PInt 2)]]) None 2 0 [])) = Inr 0"
  by (simp add: add_texts_def demo_env_unique_ids_def demo_defs current_metadata_def metadata_for_def)

end
